theory Spec2Isabelle
  imports Complex_Main
begin

section \<open>Codebook features: a model of \<open>codebook_features/models.py\<close>\<close>

text \<open>
  Tensors are nested lists of reals: a vector is a \<open>real list\<close>, the codebook matrix
  (\<open>num_codes \<times> dim\<close>) a list of rows, a layer activation (\<open>batch \<times> positions \<times> dim\<close>)
  a list of lists of vectors. The entries are reals. Where a result is continuous in its
  operands (the soft average, the replacement rows of \<open>expire_codes\<close>) the arithmetic is
  exact and the rounding of the floating-point kernels is not modelled; the scores that
  decide the hard selection are what the library's kernels return (see below). Python
  exceptions are values of \<open>error\<close>.
\<close>

type_synonym vec = "real list"
type_synonym matrix = "real list list"
type_synonym tensor3 = "real list list list"

datatype error = AssertionError | ValueError | IndexError | RuntimeError | AttributeError

datatype snap_function = EuclideanSnapFunction | InnerProductSnapFunction

subsection \<open>\<open>CodebookModel.__init__\<close>\<close>

text \<open>
  The backbone as far as the constructor reads and writes it: the configured number of
  transformer layers (what \<open>num_layers()\<close> returns) and the \<open>requires_grad\<close> flag of each
  parameter of \<open>model.parameters()\<close>.
\<close>

record backbone =
  num_hidden_layers :: int
  requires_grad :: "bool list"

record codebook_model =
  model :: backbone
  num_codes :: nat
  layers_to_snap :: "int list"
  snap_fn :: snap_function

text \<open>
  The loop
  \<^verbatim>\<open>
  for i in range(len(self.layers_to_snap)):
      assert -num_layers <= i and i < num_layers
      if self.layers_to_snap[i] < 0:
          self.layers_to_snap[i] += self.num_layers()
  \<close>
  with the loop counter \<open>i\<close> as argument. The assertion is on the counter \<open>i\<close>, as written
  in the source.
\<close>

function normalize_layers :: "int \<Rightarrow> nat \<Rightarrow> int list \<Rightarrow> error + int list" where
  "normalize_layers num_layers i ls =
     (if i < length ls then
        (if - num_layers \<le> int i \<and> int i < num_layers then
           normalize_layers num_layers (Suc i)
             (if ls ! i < 0 then ls[i := ls ! i + num_layers] else ls)
         else Inl AssertionError)
      else Inr ls)"
  by pat_completeness auto
termination
  by (relation "measure (\<lambda>(n, i, ls). length ls - i)") auto

declare normalize_layers.simps [simp del]

definition freeze_model_params :: "backbone \<Rightarrow> backbone" where
  "freeze_model_params m = m\<lparr>requires_grad := map (\<lambda>_. False) (requires_grad m)\<rparr>"

definition unfreeze_model_params :: "backbone \<Rightarrow> backbone" where
  "unfreeze_model_params m = m\<lparr>requires_grad := map (\<lambda>_. True) (requires_grad m)\<rparr>"

text \<open>
  The constructor returns the new object or the exception raised, together with the
  caller's backbone as the constructor leaves it (the backbone is mutated in place by
  \<open>freeze_model_params\<close>).
\<close>

definition CodebookModel_init ::
  "backbone \<Rightarrow> nat \<Rightarrow> int list \<Rightarrow> string \<Rightarrow> (error + codebook_model) \<times> backbone" where
  "CodebookModel_init m n_codes layers similarity_metric =
     (case normalize_layers (num_hidden_layers m) 0 layers of
        Inl e \<Rightarrow> (Inl e, m)
      | Inr ls \<Rightarrow>
          (let m' = freeze_model_params m in
           if similarity_metric = ''euclidean'' then
             (Inr \<lparr>model = m', num_codes = n_codes, layers_to_snap = sort ls,
                   snap_fn = EuclideanSnapFunction\<rparr>, m')
           else if similarity_metric = ''inner_product'' then
             (Inr \<lparr>model = m', num_codes = n_codes, layers_to_snap = sort ls,
                   snap_fn = InnerProductSnapFunction\<rparr>, m')
           else (Inl ValueError, m')))"

text \<open>The layer list a construction selects, or the exception it raises.\<close>

definition selected_layers :: "backbone \<Rightarrow> nat \<Rightarrow> int list \<Rightarrow> string \<Rightarrow> error + int list" where
  "selected_layers m n_codes layers similarity_metric =
     map_sum id layers_to_snap (fst (CodebookModel_init m n_codes layers similarity_metric))"

definition six_layers :: backbone where
  "six_layers = \<lparr>num_hidden_layers = 6, requires_grad = [True, True, True]\<rparr>"

subsection \<open>Tensor operations of the library\<close>

text \<open>
  Well-formedness of the nested lists as tensors: an activation of shape
  \<open>(batch, positions, dim)\<close> and a codebook of shape \<open>(num_codes, dim)\<close>.
\<close>

definition has_shape :: "nat \<Rightarrow> nat \<Rightarrow> nat \<Rightarrow> tensor3 \<Rightarrow> bool" where
  "has_shape b p d x =
     (length x = b \<and> list_all (\<lambda>row. length row = p \<and> list_all (\<lambda>v. length v = d) row) x)"

definition is_codebook :: "nat \<Rightarrow> nat \<Rightarrow> matrix \<Rightarrow> bool" where
  "is_codebook n d W = (length W = n \<and> list_all (\<lambda>r. length r = d) W)"

text \<open>
  The number of columns is read off the first row: a codebook without rows is the empty
  list and does not keep its second dimension. The theorems below that depend on the
  shape assume at least one code.
\<close>

definition ncols :: "matrix \<Rightarrow> nat" where
  "ncols W = (case W of [] \<Rightarrow> 0 | r # _ \<Rightarrow> length r)"

text \<open>
  The shape test of \<open>torch.matmul(inputs, codebook.T)\<close> and of \<open>torch.cdist\<close>: the last
  dimension of the input is the codebook's; both raise \<open>RuntimeError\<close> otherwise.
\<close>

definition dims_agree :: "tensor3 \<Rightarrow> matrix \<Rightarrow> bool" where
  "dims_agree x W = list_all (list_all (\<lambda>v. length v = ncols W)) x"

definition dot :: "vec \<Rightarrow> vec \<Rightarrow> real" where
  "dot v c = sum_list (map2 (*) v c)"

definition matmul_T :: "tensor3 \<Rightarrow> matrix \<Rightarrow> tensor3" where
  "matmul_T x W = map (map (\<lambda>v. map (dot v) W)) x"

definition cdist :: "tensor3 \<Rightarrow> matrix \<Rightarrow> tensor3" where
  "cdist x W = map (map (\<lambda>v. map (\<lambda>c. sqrt (sum_list (map2 (\<lambda>a b. (a - b)\<^sup>2) v c))) W)) x"

text \<open>
  \<open>argmax\<close> and \<open>argmin\<close> over the last axis return the index of the first maximal
  (minimal) value; on an empty axis the library raises, which the callers below test
  before calling.
\<close>

fun argmax :: "real list \<Rightarrow> nat" where
  "argmax [] = 0"
| "argmax [x] = 0"
| "argmax (x # y # ys) = (let j = argmax (y # ys) in if x < (y # ys) ! j then Suc j else 0)"

fun argmin :: "real list \<Rightarrow> nat" where
  "argmin [] = 0"
| "argmin [x] = 0"
| "argmin (x # y # ys) = (let j = argmin (y # ys) in if (y # ys) ! j < x then Suc j else 0)"

definition embedding :: "nat list list \<Rightarrow> matrix \<Rightarrow> tensor3" where
  "embedding ids W = map (map (\<lambda>i. W ! i)) ids"

definition softmax :: "real list \<Rightarrow> real list" where
  "softmax ls = map (\<lambda>l. exp l / sum_list (map exp ls)) ls"

text \<open>
  \<open>matmul_T\<close> and \<open>cdist\<close> above are the exact dot products and distances. The library
  computes \<open>torch.matmul(inputs, codebook.T)\<close> and \<open>torch.cdist(inputs, codebook, p=2)\<close> in
  the floating-point arithmetic of the tensors, with a rounding and an order of
  evaluation of its own choice (\<open>cdist\<close> changes its formula with the number of rows).
  \<open>argmax\<close> and \<open>argmin\<close> are not continuous in the scores, so the snap functions take
  what the two kernels return as a parameter.
\<close>

record torch =
  torch_matmul :: "tensor3 \<Rightarrow> matrix \<Rightarrow> tensor3"
  torch_cdist :: "tensor3 \<Rightarrow> matrix \<Rightarrow> tensor3"

definition exact_kernels :: torch where
  "exact_kernels = \<lparr>torch_matmul = matmul_T, torch_cdist = cdist\<rparr>"

text \<open>
  A kernel in single precision, the default type of the tensors: \<open>float32\<close> rounds a real
  to the nearest number with a significand of 24 bits, ties to the even significand
  (overflow and subnormal numbers are left out), and the dot product rounds every product
  and every partial sum.
\<close>

definition round_half_even :: "real \<Rightarrow> int" where
  "round_half_even m =
     (let f = \<lfloor>m\<rfloor> in
      if m - of_int f < 1 / 2 then f
      else if 1 / 2 < m - of_int f then f + 1
      else if even f then f else f + 1)"

definition float32 :: "real \<Rightarrow> real" where
  "float32 x =
     (if x = 0 then 0
      else
        (let q = 2 powr (of_int \<lfloor>log 2 \<bar>x\<bar>\<rfloor> - 23)
         in of_int (round_half_even (x / q)) * q))"

definition dot_float32 :: "vec \<Rightarrow> vec \<Rightarrow> real" where
  "dot_float32 v c = foldl (\<lambda>acc (a, b). float32 (acc + float32 (a * b))) 0 (zip v c)"

definition matmul_float32 :: "tensor3 \<Rightarrow> matrix \<Rightarrow> tensor3" where
  "matmul_float32 x W = map (map (\<lambda>v. map (dot_float32 v) W)) x"

subsection \<open>The snap functions\<close>

text \<open>
  The context saved for the backward pass holds the codebook and the outputs; the outputs
  carry their \<open>grad_fn\<close>, the embedding lookup at the selected ids, which the model keeps
  as the ids.
\<close>

record ctx =
  saved_codebook :: matrix
  saved_ids :: "nat list list"

definition InnerProductSnapFunction_forward ::
  "(tensor3 \<Rightarrow> matrix \<Rightarrow> tensor3) \<Rightarrow> tensor3 \<Rightarrow> matrix
     \<Rightarrow> error + ((tensor3 \<times> nat list list) \<times> ctx)" where
  "InnerProductSnapFunction_forward matmul inputs codebook =
     (if \<not> dims_agree inputs codebook then Inl RuntimeError
      else if codebook = [] then Inl IndexError
      else
        (let logits = matmul inputs codebook;
             codebook_ids = map (map argmax) logits;
             outputs = embedding codebook_ids codebook
         in Inr ((outputs, codebook_ids),
                 \<lparr>saved_codebook = codebook, saved_ids = codebook_ids\<rparr>)))"

definition EuclideanSnapFunction_forward ::
  "(tensor3 \<Rightarrow> matrix \<Rightarrow> tensor3) \<Rightarrow> tensor3 \<Rightarrow> matrix
     \<Rightarrow> error + ((tensor3 \<times> nat list list) \<times> ctx)" where
  "EuclideanSnapFunction_forward cdist_kernel inputs codebook =
     (if \<not> dims_agree inputs codebook then Inl RuntimeError
      else if codebook = [] then Inl IndexError
      else
        (let logits = cdist_kernel inputs codebook;
             codebook_ids = map (map argmin) logits;
             outputs = embedding codebook_ids codebook
         in Inr ((outputs, codebook_ids),
                 \<lparr>saved_codebook = codebook, saved_ids = codebook_ids\<rparr>)))"

text \<open>
  The gradient of the embedding lookup with respect to the codebook
  (\<open>torch.autograd.grad(output, codebook, grad_outputs)[0]\<close>): row \<open>c\<close> receives the sum of
  the output gradients at the positions that selected \<open>c\<close>.
\<close>

definition embedding_grad :: "matrix \<Rightarrow> nat list list \<Rightarrow> tensor3 \<Rightarrow> matrix" where
  "embedding_grad codebook ids grad_outputs =
     map (\<lambda>c. foldr (map2 (+))
                 (map snd (filter (\<lambda>(i, g). i = c) (zip (concat ids) (concat grad_outputs))))
                 (map (\<lambda>_. 0) (codebook ! c)))
         [0..<length codebook]"

definition BaseSnapFunction_backward :: "ctx \<Rightarrow> tensor3 \<Rightarrow> 'g \<Rightarrow> tensor3 \<times> matrix" where
  "BaseSnapFunction_backward c grad_outputs grad_codebook_ids =
     (let codebook = saved_codebook c;
          grad_codebook = embedding_grad codebook (saved_ids c) grad_outputs
      in (grad_outputs, grad_codebook))"

definition snap_apply ::
  "torch \<Rightarrow> snap_function \<Rightarrow> tensor3 \<Rightarrow> matrix
     \<Rightarrow> error + ((tensor3 \<times> nat list list) \<times> ctx)" where
  "snap_apply K f = (case f of
       EuclideanSnapFunction \<Rightarrow> EuclideanSnapFunction_forward (torch_cdist K)
     | InnerProductSnapFunction \<Rightarrow> InnerProductSnapFunction_forward (torch_matmul K))"

subsection \<open>\<open>CodebookLayer\<close>\<close>

text \<open>
  The layer's state: the codebook matrix (\<open>self.codebook.weight\<close>), the usage counter
  (a Python \<open>Counter\<close>: a dictionary from code ids to integers, a missing key counting as
  0), the mode flag and the snap function.
\<close>

record codebook_layer =
  weight :: matrix
  counts :: "nat \<rightharpoonup> int"
  soft_snap :: bool
  layer_snap_fn :: snap_function

text \<open>What \<open>self.counts[i]\<close> reads.\<close>

definition count_of :: "(nat \<rightharpoonup> int) \<Rightarrow> nat \<Rightarrow> int" where
  "count_of m i = (case m i of None \<Rightarrow> 0 | Some c \<Rightarrow> c)"

text \<open>\<open>Counter.update(iterable)\<close>: one more for each element of the iterable.\<close>

definition counter_update :: "(nat \<rightharpoonup> int) \<Rightarrow> nat list \<Rightarrow> (nat \<rightharpoonup> int)" where
  "counter_update m ks = fold (\<lambda>k m. m(k \<mapsto> count_of m k + 1)) ks m"

text \<open>
  The argument of \<open>forward\<close> is a tensor; the layer asserts that its rank is 3. Of a
  tensor of another rank only the rank is kept.
\<close>

datatype activation = Rank3 tensor3 | OtherRank nat

text \<open>
  The soft average: \<open>codebook_weights.unsqueeze(-1) * weight.unsqueeze(0)\<close> is the tensor of
  the products \<open>w[b, p, c] * weight[c, k]\<close>, summed over the code axis \<open>c\<close>. The output of
  the soft branch is continuous in the logits, and the branch is modelled in exact
  arithmetic.
\<close>

definition weighted_rows :: "real list \<Rightarrow> matrix \<Rightarrow> matrix" where
  "weighted_rows w W = map2 (\<lambda>wc row. map (\<lambda>v. wc * v) row) w W"

definition sum_rows :: "nat \<Rightarrow> matrix \<Rightarrow> vec" where
  "sum_rows d M = map (\<lambda>k. sum_list (map (\<lambda>r. r ! k) M)) [0..<d]"

definition CodebookLayer_forward ::
  "torch \<Rightarrow> codebook_layer \<Rightarrow> activation \<Rightarrow> error + (tensor3 \<times> codebook_layer)" where
  "CodebookLayer_forward K l a =
     (case a of
        OtherRank r \<Rightarrow> Inl AssertionError
      | Rank3 x \<Rightarrow>
          if \<not> soft_snap l then
            (case snap_apply K (layer_snap_fn l) x (weight l) of
               Inl e \<Rightarrow> Inl e
             | Inr ((output, codebook_ids), c) \<Rightarrow>
                 Inr (output, l\<lparr>counts := counter_update (counts l) (concat codebook_ids)\<rparr>))
          else if \<not> dims_agree x (weight l) then Inl RuntimeError
          else
            (let logits = matmul_T x (weight l);
                 codebook_weights = map (map softmax) logits;
                 output = map (map (\<lambda>w. weighted_rows w (weight l))) codebook_weights
             in Inr (map (map (sum_rows (ncols (weight l)))) output, l)))"

text \<open>
  \<open>expire_codes\<close>. \<open>underused_codes\<close> is a Python set filled by the loop over the code
  ids; the model keeps its elements in ascending order. \<open>list(underused_codes)\<close> lists them
  in the order of their slots in the hash table of the set, which is not the ascending
  order in general (\<open>list({1, 8})\<close> is \<open>[8, 1]\<close>): the model takes the slot of each code id
  as a parameter. The uniform draws of \<open>torch.rand\<close> come from a generator, a sequence of
  reals; \<open>torch_rand g u c\<close> is the \<open>u \<times> c\<close> matrix it fills.
\<close>

definition underused_codes :: "codebook_layer \<Rightarrow> int \<Rightarrow> nat list" where
  "underused_codes l threshold =
     filter (\<lambda>i. counts l i = None \<or> count_of (counts l) i < threshold)
       [0..<length (weight l)]"

definition list_of_set :: "(nat \<Rightarrow> nat) \<Rightarrow> nat list \<Rightarrow> nat list" where
  "list_of_set slot xs = sort_key slot xs"

definition torch_rand :: "(nat \<Rightarrow> real) \<Rightarrow> nat \<Rightarrow> nat \<Rightarrow> matrix" where
  "torch_rand g u c = map (\<lambda>i. map (\<lambda>j. g (i * c + j)) [0..<c]) [0..<u]"

definition normalize_rows :: "matrix \<Rightarrow> matrix" where
  "normalize_rows weights = map (\<lambda>w. map (\<lambda>a. a / sum_list w) w) weights"

definition einsum_uc_cd :: "matrix \<Rightarrow> matrix \<Rightarrow> matrix" where
  "einsum_uc_cd weights W =
     map (\<lambda>w. map (\<lambda>k. sum_list (map2 (\<lambda>a row. a * row ! k) w W)) [0..<ncols W]) weights"

text \<open>
  \<open>weight[idx] = new_codes\<close>. The index tensor built from an empty list has a floating
  dtype, and indexing with it raises \<open>IndexError\<close>.
\<close>

definition index_put :: "matrix \<Rightarrow> nat list \<Rightarrow> matrix \<Rightarrow> error + matrix" where
  "index_put W idx rows =
     (if idx = [] then Inl IndexError
      else Inr (fold (\<lambda>(i, r) M. M[i := r]) (zip idx rows) W))"

definition expire_codes ::
  "codebook_layer \<Rightarrow> int \<Rightarrow> (nat \<Rightarrow> nat) \<Rightarrow> (nat \<Rightarrow> real) \<Rightarrow> error + codebook_layer" where
  "expire_codes l threshold slot g =
     (let underused = underused_codes l threshold;
          weights = torch_rand g (length underused) (length (weight l));
          weights = normalize_rows weights;
          new_codes = einsum_uc_cd weights (weight l);
          underused = list_of_set slot underused
      in case index_put (weight l) underused new_codes of
           Inl IndexError \<Rightarrow> Inr l
         | Inl e \<Rightarrow> Inl e
         | Inr W' \<Rightarrow> Inr (l\<lparr>weight := W'\<rparr>))"

text \<open>
  A run of calls on one layer object, in order: \<open>forward\<close> calls and \<open>expire_codes\<close>
  calls. The run stops at the first exception. Beside the layer as the run leaves it, the
  model returns the code ids that the hard-mode forward calls of the run selected (one id
  for each position of each call), which is what the usage counter is meant to count.
\<close>

definition selected_codes :: "torch \<Rightarrow> codebook_layer \<Rightarrow> activation \<Rightarrow> nat list" where
  "selected_codes K l a =
     (if soft_snap l then []
      else case a of
             OtherRank r \<Rightarrow> []
           | Rank3 x \<Rightarrow>
               (case snap_apply K (layer_snap_fn l) x (weight l) of
                  Inl e \<Rightarrow> []
                | Inr ((output, codebook_ids), c) \<Rightarrow> concat codebook_ids))"

datatype layer_call = Forward activation | ExpireCodes int "nat \<Rightarrow> nat" "nat \<Rightarrow> real"

fun run_calls ::
  "torch \<Rightarrow> codebook_layer \<Rightarrow> layer_call list \<Rightarrow> error + (codebook_layer \<times> nat list)" where
  "run_calls K l [] = Inr (l, [])"
| "run_calls K l (Forward a # cs) =
     (case CodebookLayer_forward K l a of
        Inl e \<Rightarrow> Inl e
      | Inr (output, l') \<Rightarrow>
          (case run_calls K l' cs of
             Inl e \<Rightarrow> Inl e
           | Inr (l'', sel) \<Rightarrow> Inr (l'', selected_codes K l a @ sel)))"
| "run_calls K l (ExpireCodes threshold slot g # cs) =
     (case expire_codes l threshold slot g of
        Inl e \<Rightarrow> Inl e
      | Inr l' \<Rightarrow> run_calls K l' cs)"

subsection \<open>\<open>TransformerLayerWrapper\<close>\<close>

text \<open>
  A transformer layer returns a tuple whose element 0 is the activation; the other
  elements are auxiliary values of any kind. A module of the layer list is a layer of the
  backbone (a function from its arguments to its output tuple) or a wrapper around a
  module, with its codebook layer and its \<open>snap\<close> flag.
\<close>

datatype 'b tuple_item = Act activation | Aux 'b

datatype ('a, 'b) module =
    Layer "'a \<Rightarrow> 'b tuple_item list"
  | TransformerLayerWrapper
      (transformer_layer: "('a, 'b) module") (codebook_layer: codebook_layer) (snap: bool)

text \<open>
  Calling a module returns its output tuple and the module as the call leaves it (the
  usage counter of a wrapper's codebook layer changes). For a wrapper this is
  \<open>TransformerLayerWrapper.forward\<close>: \<open>layer_outputs[0]\<close> raises \<open>IndexError\<close> on an empty
  tuple, and the codebook layer reads \<open>x.shape\<close>, which a value that is no tensor does
  not have.
\<close>

fun forward ::
  "torch \<Rightarrow> ('a, 'b) module \<Rightarrow> 'a \<Rightarrow> error + ('b tuple_item list \<times> ('a, 'b) module)" where
  "forward K (Layer f) args = Inr (f args, Layer f)"
| "forward K (TransformerLayerWrapper layer cl sn) args =
     (case forward K layer args of
        Inl e \<Rightarrow> Inl e
      | Inr (layer_outputs, layer') \<Rightarrow>
          if sn then
            (case layer_outputs of
               [] \<Rightarrow> Inl IndexError
             | o0 # rest \<Rightarrow>
                 (case o0 of
                    Aux v \<Rightarrow> Inl AttributeError
                  | Act a \<Rightarrow>
                      (case CodebookLayer_forward K cl a of
                         Inl e \<Rightarrow> Inl e
                       | Inr (snapped_output, cl') \<Rightarrow>
                           Inr (Act (Rank3 snapped_output) # rest,
                                TransformerLayerWrapper layer' cl' sn))))
          else Inr (layer_outputs, TransformerLayerWrapper layer' cl sn))"

text \<open>
  \<open>CodebookLayer(dim, num_codes, snap_fn=snap_fn)\<close> with the initial (random) codebook
  given, and the constructor of the wrapper.
\<close>

definition CodebookLayer_init :: "matrix \<Rightarrow> snap_function \<Rightarrow> codebook_layer" where
  "CodebookLayer_init W f =
     \<lparr>weight = W, counts = Map.empty, soft_snap = False, layer_snap_fn = f\<rparr>"

definition TransformerLayerWrapper_init ::
  "('a, 'b) module \<Rightarrow> matrix \<Rightarrow> snap_function \<Rightarrow> ('a, 'b) module" where
  "TransformerLayerWrapper_init layer W f = TransformerLayerWrapper layer (CodebookLayer_init W f) True"

text \<open>
  \<open>add_codebooks\<close>, \<open>enable_codebooks\<close> and \<open>disable_codebooks\<close> on the layer list of the
  backbone; \<open>init i\<close> is the initial codebook of the layer at index \<open>i\<close>. Setting \<open>snap\<close> on
  a module that is no wrapper leaves its forward function as it is.
\<close>

definition add_codebooks ::
  "codebook_model \<Rightarrow> (nat \<Rightarrow> matrix) \<Rightarrow> ('a, 'b) module list \<Rightarrow> ('a, 'b) module list" where
  "add_codebooks cm init layers =
     map (\<lambda>(i, layer). if int i \<in> set (layers_to_snap cm)
                        then TransformerLayerWrapper_init layer (init i) (snap_fn cm)
                        else layer)
         (enumerate 0 layers)"

fun set_snap :: "bool \<Rightarrow> ('a, 'b) module \<Rightarrow> ('a, 'b) module" where
  "set_snap v (Layer f) = Layer f"
| "set_snap v (TransformerLayerWrapper layer cl sn) = TransformerLayerWrapper layer cl v"

definition enable_codebooks ::
  "codebook_model \<Rightarrow> ('a, 'b) module list \<Rightarrow> ('a, 'b) module list" where
  "enable_codebooks cm layers =
     map (\<lambda>(i, layer). if int i \<in> set (layers_to_snap cm) then set_snap True layer else layer)
         (enumerate 0 layers)"

definition disable_codebooks ::
  "codebook_model \<Rightarrow> ('a, 'b) module list \<Rightarrow> ('a, 'b) module list" where
  "disable_codebooks cm layers =
     map (\<lambda>(i, layer). if int i \<in> set (layers_to_snap cm) then set_snap False layer else layer)
         (enumerate 0 layers)"

subsection \<open>Example values\<close>

definition example_layer :: codebook_layer where
  "example_layer = \<lparr>weight = [[1, 0], [5, 0]], counts = [1 \<mapsto> 3], soft_snap = False,
                     layer_snap_fn = EuclideanSnapFunction\<rparr>"

definition example_slot :: "nat \<Rightarrow> nat" where
  "example_slot i = i mod 8"

definition example_draws :: "nat \<Rightarrow> real" where
  "example_draws m = 1 / 2"

definition example_input :: tensor3 where
  "example_input = [[[2, 0], [4, 0]]]"

definition example_backbone_layer :: "(tensor3, nat) module" where
  "example_backbone_layer = Layer (\<lambda>x. [Act (Rank3 x), Aux 7])"

definition example_model :: codebook_model where
  "example_model = \<lparr>model = \<lparr>num_hidden_layers = 2, requires_grad = [False]\<rparr>, num_codes = 2,
                     layers_to_snap = [1, 1], snap_fn = EuclideanSnapFunction\<rparr>"

subsection \<open>The quantities the specification speaks of\<close>

text \<open>
  The dot product and the Euclidean distance of two vectors, written as sums over the
  coordinates; the snap functions are compared with these.
\<close>

definition inner_product :: "vec \<Rightarrow> vec \<Rightarrow> real" where
  "inner_product v c = (\<Sum>k<length v. v ! k * c ! k)"

definition euclidean_distance :: "vec \<Rightarrow> vec \<Rightarrow> real" where
  "euclidean_distance v c = sqrt (\<Sum>k<length v. (v ! k - c ! k)\<^sup>2)"

text \<open>
  The softmax weight of code \<open>c\<close> for the input vector \<open>v\<close>: the exponential of the dot
  product of \<open>v\<close> with row \<open>c\<close>, divided by the sum of these over all rows.
\<close>



section \<open>Properties\<close>

subsection \<open>Construction of a \<open>CodebookModel\<close>\<close>

lemma normalize_layers_eq:
  "normalize_layers n i ls =
     (if i < length ls \<and> \<not> int (length ls) \<le> n then Inl AssertionError
      else Inr (take i ls @ map (\<lambda>x. if x < 0 then x + n else x) (drop i ls)))"
proof (induction n i ls rule: normalize_layers.induct)
  case (1 n i ls)
  show ?case
  proof (cases "i < length ls")
    case False
    then show ?thesis by (simp add: normalize_layers.simps [of n i ls])
  next
    case True
    note lt = this
    show ?thesis
    proof (cases "- n \<le> int i \<and> int i < n")
      case False
      with lt show ?thesis by (auto simp add: normalize_layers.simps [of n i ls])
    next
      case True
      let ?ls' = "if ls ! i < 0 then ls[i := ls ! i + n] else ls"
      have len: "length ?ls' = length ls" by simp
      have IH: "normalize_layers n (Suc i) ?ls' =
         (if Suc i < length ?ls' \<and> \<not> int (length ?ls') \<le> n then Inl AssertionError
          else Inr (take (Suc i) ?ls' @ map (\<lambda>x. if x < 0 then x + n else x) (drop (Suc i) ?ls')))"
        using "1.IH" [OF lt True] .
      have tk: "take (Suc i) ?ls' = take i ls @ [if ls ! i < 0 then ls ! i + n else ls ! i]"
        using lt by (simp add: take_Suc_conv_app_nth)
      have dr: "drop (Suc i) ?ls' = drop (Suc i) ls" by simp
      have d2: "drop i ls = ls ! i # drop (Suc i) ls" using lt by (simp add: Cons_nth_drop_Suc)
      show ?thesis
        apply (subst normalize_layers.simps)
        apply (simp only: lt True if_True IH len tk dr d2)
        using lt True apply auto
        done
    qed
  qed
qed

text \<open>
  The whole loop: it raises exactly when the list is longer than the backbone has layers
  (the assertion bounds the position in the list, not the index stored there), and
  otherwise adds \<open>num_layers\<close> to every negative entry.
\<close>

lemma normalize_layers_0:
  "normalize_layers n 0 ls =
     (if ls \<noteq> [] \<and> \<not> int (length ls) \<le> n then Inl AssertionError
      else Inr (map (\<lambda>x. if x < 0 then x + n else x) ls))"
  by (simp add: normalize_layers_eq)

lemma selected_layers_eq:
  "selected_layers m n layers metric =
     (if layers \<noteq> [] \<and> \<not> int (length layers) \<le> num_hidden_layers m then Inl AssertionError
      else if metric = ''euclidean'' \<or> metric = ''inner_product'' then
        Inr (sort (map (\<lambda>x. if x < 0 then x + num_hidden_layers m else x) layers))
      else Inl ValueError)"
  by (simp add: selected_layers_def CodebookModel_init_def normalize_layers_0 Let_def)

lemma unrecognized_metric_raises:
  "metric \<noteq> ''euclidean'' \<Longrightarrow> metric \<noteq> ''inner_product'' \<Longrightarrow>
   isl (fst (CodebookModel_init m n layers metric))"
  by (simp add: CodebookModel_init_def normalize_layers_0 Let_def)

text \<open>
  C1. An out-of-range layer index is not rejected by the constructor: on a backbone with 6
  layers, \<open>layers_to_snap = [10]\<close> with the metric \<open>euclidean\<close> constructs a model whose
  selected list is \<open>[10]\<close>. (The assertion of the loop tests the loop counter, which is 0
  here, and not the index 10.)
\<close>

theorem init_accepts_out_of_range_layer:
  "selected_layers six_layers 16 [10] ''euclidean'' = Inr [10]"
  by (simp add: selected_layers_eq six_layers_def)

text \<open>
  C2, as stated, fails: the indices \<open>[-1, 5]\<close> on a backbone with 6 layers both normalize to
  5, and the selected list is \<open>[5, 5]\<close>, which is not deduplicated.
\<close>

theorem layers_not_deduplicated:
  "selected_layers six_layers 16 [-1, 5] ''euclidean'' = Inr [5, 5] \<and> \<not> distinct [5 :: int, 5]"
  by (simp add: selected_layers_eq six_layers_def)

text \<open>
  C2, amended. Whenever construction succeeds, the selected list is the input list with
  \<open>num_layers\<close> added to each negative index, sorted ascending; it has one entry for each
  input index, so duplicates are kept.
\<close>

theorem layers_normalized_sorted:
  assumes "selected_layers m n layers metric = Inr ls"
  shows "ls = sort (map (\<lambda>x. if x < 0 then x + num_hidden_layers m else x) layers)
         \<and> sorted ls \<and> length ls = length layers"
proof -
  from assms have eq: "ls = sort (map (\<lambda>x. if x < 0 then x + num_hidden_layers m else x) layers)"
    by (simp add: selected_layers_eq split: if_splits)
  then show ?thesis by simp
qed

theorem layers_normalized_sorted_witness:
  "selected_layers six_layers 16 [-1, -2] ''euclidean'' = Inr [4, 5]
   \<and> [4, 5] = sort (map (\<lambda>x. if x < 0 then x + num_hidden_layers six_layers else x) [-1, -2])
   \<and> sorted [4 :: int, 5] \<and> length [4 :: int, 5] = length [-1 :: int, -2]"
proof -
  have h: "selected_layers six_layers 16 [-1, -2] ''euclidean'' = Inr [4, 5]"
    by (simp add: selected_layers_eq six_layers_def)
  show ?thesis using h layers_normalized_sorted [OF h] by simp
qed

text \<open>
  C9. The constructor raises \<open>ValueError\<close> exactly when the assertion of the loop passes
  and the metric is neither \<open>euclidean\<close> nor \<open>inner_product\<close>; when it does, the caller's
  backbone has already been frozen: every parameter has \<open>requires_grad = False\<close>.
\<close>

theorem init_value_error_leaves_backbone_frozen:
  "(fst (CodebookModel_init m n layers metric) = Inl ValueError \<longleftrightarrow>
      (layers = [] \<or> int (length layers) \<le> num_hidden_layers m)
      \<and> metric \<noteq> ''euclidean'' \<and> metric \<noteq> ''inner_product'')
   \<and> (fst (CodebookModel_init m n layers metric) = Inl ValueError \<longrightarrow>
        snd (CodebookModel_init m n layers metric) = freeze_model_params m
        \<and> length (requires_grad (snd (CodebookModel_init m n layers metric)))
            = length (requires_grad m)
        \<and> (\<forall>g \<in> set (requires_grad (snd (CodebookModel_init m n layers metric))). \<not> g))"
  by (auto simp add: CodebookModel_init_def normalize_layers_0 Let_def freeze_model_params_def)

theorem init_value_error_leaves_backbone_frozen_witness:
  "fst (CodebookModel_init six_layers 16 [-1, -2] ''cosine'') = Inl ValueError
   \<and> snd (CodebookModel_init six_layers 16 [-1, -2] ''cosine'')
       = \<lparr>num_hidden_layers = 6, requires_grad = [False, False, False]\<rparr>
   \<and> requires_grad six_layers = [True, True, True]"
proof -
  have h: "fst (CodebookModel_init six_layers 16 [-1, -2] ''cosine'') = Inl ValueError"
    using init_value_error_leaves_backbone_frozen [of six_layers 16 "[-1, -2]" "''cosine''"]
    by (simp add: six_layers_def)
  show ?thesis
    using h init_value_error_leaves_backbone_frozen [of six_layers 16 "[-1, -2]" "''cosine''"]
    by (simp add: six_layers_def freeze_model_params_def)
qed

subsection \<open>The snap functions\<close>

lemma argmax_less: "xs \<noteq> [] \<Longrightarrow> argmax xs < length xs"
  by (induction xs rule: argmax.induct) (auto simp: Let_def)

lemma argmax_greatest: "j < length xs \<Longrightarrow> xs ! j \<le> xs ! argmax xs"
proof (induction xs arbitrary: j rule: argmax.induct)
  case 1 then show ?case by simp
next
  case (2 x) then show ?case by simp
next
  case (3 x y ys)
  show ?case
  proof (cases j)
    case 0
    then show ?thesis by (auto simp: Let_def)
  next
    case (Suc j')
    with "3.prems" have "j' < length (y # ys)" by simp
    from "3.IH" [OF this] have "(y # ys) ! j' \<le> (y # ys) ! argmax (y # ys)" .
    with Suc show ?thesis by (auto simp: Let_def)
  qed
qed

lemma argmin_less: "xs \<noteq> [] \<Longrightarrow> argmin xs < length xs"
  by (induction xs rule: argmin.induct) (auto simp: Let_def)

lemma argmin_least: "j < length xs \<Longrightarrow> xs ! argmin xs \<le> xs ! j"
proof (induction xs arbitrary: j rule: argmin.induct)
  case 1 then show ?case by simp
next
  case (2 x) then show ?case by simp
next
  case (3 x y ys)
  show ?case
  proof (cases j)
    case 0
    then show ?thesis by (auto simp: Let_def)
  next
    case (Suc j')
    with "3.prems" have "j' < length (y # ys)" by simp
    from "3.IH" [OF this] have "(y # ys) ! argmin (y # ys) \<le> (y # ys) ! j'" .
    with Suc show ?thesis by (auto simp: Let_def)
  qed
qed

lemma sum_list_map2_nth:
  "length v = length c \<Longrightarrow> sum_list (map2 f v c) = (\<Sum>k<length v. f (v ! k) (c ! k) :: real)"
proof (induction v c rule: list_induct2)
  case Nil then show ?case by simp
next
  case (Cons a v b c)
  have "(\<Sum>k<Suc (length v). f ((a # v) ! k) ((b # c) ! k)) = f a b + (\<Sum>k<length v. f (v ! k) (c ! k))"
    by (subst sum.lessThan_Suc_shift) simp
  with Cons show ?case by simp
qed

lemma dot_inner_product: "length v = length c \<Longrightarrow> dot v c = inner_product v c"
  by (simp add: dot_def inner_product_def sum_list_map2_nth)

lemma cdist_entry:
  "length v = length c \<Longrightarrow>
   sqrt (sum_list (map2 (\<lambda>a b. (a - b)\<^sup>2) v c)) = euclidean_distance v c"
  by (simp add: euclidean_distance_def sum_list_map2_nth)

lemma has_shape_nth:
  "has_shape b p d x \<Longrightarrow> i < b \<Longrightarrow> length (x ! i) = p"
  "has_shape b p d x \<Longrightarrow> i < b \<Longrightarrow> j < p \<Longrightarrow> length (x ! i ! j) = d"
  by (auto simp: has_shape_def list_all_length)

lemma is_codebook_nth: "is_codebook n d W \<Longrightarrow> k < n \<Longrightarrow> length (W ! k) = d"
  by (auto simp: is_codebook_def list_all_length)

lemma ncols_codebook: "is_codebook n d W \<Longrightarrow> 0 < n \<Longrightarrow> ncols W = d"
  by (cases W) (auto simp: is_codebook_def ncols_def)

lemma dims_agree_shape:
  "has_shape b p d x \<Longrightarrow> is_codebook n d W \<Longrightarrow> 0 < n \<Longrightarrow> dims_agree x W"
  by (auto simp: dims_agree_def has_shape_def ncols_codebook list_all_iff)

lemma argmax_first: "j < argmax xs \<Longrightarrow> xs ! j < xs ! argmax xs"
proof (induction xs arbitrary: j rule: argmax.induct)
  case 1 then show ?case by simp
next
  case (2 x) then show ?case by simp
next
  case (3 x y ys)
  show ?case
  proof (cases "x < (y # ys) ! argmax (y # ys)")
    case False
    with "3.prems" show ?thesis by (simp add: Let_def)
  next
    case True
    show ?thesis
    proof (cases j)
      case 0
      with True show ?thesis by (simp add: Let_def)
    next
      case (Suc j')
      with "3.prems" True have "j' < argmax (y # ys)" by (simp add: Let_def)
      from "3.IH" [OF this] Suc True show ?thesis by (simp add: Let_def)
    qed
  qed
qed

lemma argmin_first: "j < argmin xs \<Longrightarrow> xs ! argmin xs < xs ! j"
proof (induction xs arbitrary: j rule: argmin.induct)
  case 1 then show ?case by simp
next
  case (2 x) then show ?case by simp
next
  case (3 x y ys)
  show ?case
  proof (cases "(y # ys) ! argmin (y # ys) < x")
    case False
    with "3.prems" show ?thesis by (simp add: Let_def)
  next
    case True
    show ?thesis
    proof (cases j)
      case 0
      with True show ?thesis by (simp add: Let_def)
    next
      case (Suc j')
      with "3.prems" True have "j' < argmin (y # ys)" by (simp add: Let_def)
      from "3.IH" [OF this] Suc True show ?thesis by (simp add: Let_def)
    qed
  qed
qed

lemma snap_generic:
  fixes sel :: "real list \<Rightarrow> nat"
  assumes L: "has_shape b p n L" and W: "is_codebook n d W" and n: "0 < n"
    and sel: "\<forall>xs. xs \<noteq> [] \<longrightarrow> sel xs < length xs"
  defines "ids \<equiv> map (map sel) L"
  shows "has_shape b p d (embedding ids W)" and "length ids = b"
    and "i < b \<Longrightarrow> length (ids ! i) = p"
    and "i < b \<Longrightarrow> j < p \<Longrightarrow> ids ! i ! j = sel (L ! i ! j)"
    and "i < b \<Longrightarrow> j < p \<Longrightarrow> ids ! i ! j < n"
    and "i < b \<Longrightarrow> j < p \<Longrightarrow> embedding ids W ! i ! j = W ! (ids ! i ! j)"
proof -
  have lenL: "length L = b" using L by (simp add: has_shape_def)
  show lenids: "length ids = b" using lenL by (simp add: ids_def)
  have row: "length (ids ! i) = p" if "i < b" for i
    using that lenL has_shape_nth(1) [OF L that] by (simp add: ids_def)
  have entry: "ids ! i ! j = sel (L ! i ! j)" if "i < b" "j < p" for i j
    using that lenL has_shape_nth(1) [OF L that(1)] by (simp add: ids_def)
  have lt: "ids ! i ! j < n" if "i < b" "j < p" for i j
  proof -
    have "length (L ! i ! j) = n" by (rule has_shape_nth(2) [OF L that])
    with n have "L ! i ! j \<noteq> []" by auto
    with sel have "sel (L ! i ! j) < length (L ! i ! j)" by blast
    then show ?thesis using entry [OF that] \<open>length (L ! i ! j) = n\<close> by simp
  qed
  have out: "embedding ids W ! i ! j = W ! (ids ! i ! j)" if "i < b" "j < p" for i j
    using that lenids row [OF that(1)] by (simp add: embedding_def)
  show "i < b \<Longrightarrow> length (ids ! i) = p" by (rule row)
  show "i < b \<Longrightarrow> j < p \<Longrightarrow> ids ! i ! j = sel (L ! i ! j)" by (rule entry)
  show "i < b \<Longrightarrow> j < p \<Longrightarrow> ids ! i ! j < n" by (rule lt)
  show "i < b \<Longrightarrow> j < p \<Longrightarrow> embedding ids W ! i ! j = W ! (ids ! i ! j)" by (rule out)
  show "has_shape b p d (embedding ids W)"
    unfolding has_shape_def list_all_length
  proof (intro conjI allI impI)
    show "length (embedding ids W) = b" using lenids by (simp add: embedding_def)
  next
    fix i assume "i < length (embedding ids W)"
    then have i: "i < b" using lenids by (simp add: embedding_def)
    then show "length (embedding ids W ! i) = p"
      using lenids row [OF i] by (simp add: embedding_def)
  next
    fix i j assume "i < length (embedding ids W)" and "j < length (embedding ids W ! i)"
    then have i: "i < b" and j: "j < p"
      using lenids row [of i] by (simp_all add: embedding_def)
    show "length (embedding ids W ! i ! j) = d"
      using is_codebook_nth [OF W lt [OF i j]] out [OF i j] by simp
  qed
qed

lemma cdist_scores:
  assumes x: "has_shape b p d x" and W: "is_codebook n d W"
  shows "cdist x W = map (map (\<lambda>v. map (euclidean_distance v) W)) x"
  unfolding cdist_def
proof (intro map_cong refl)
  fix row v c assume "row \<in> set x" "v \<in> set row" "c \<in> set W"
  then have "length v = d" "length c = d"
    using x W by (auto simp: has_shape_def is_codebook_def list_all_iff)
  then show "sqrt (sum_list (map2 (\<lambda>a b. (a - b)\<^sup>2) v c)) = euclidean_distance v c"
    by (simp add: cdist_entry)
qed

lemma matmul_T_scores:
  assumes x: "has_shape b p d x" and W: "is_codebook n d W"
  shows "matmul_T x W = map (map (\<lambda>v. map (inner_product v) W)) x"
  unfolding matmul_T_def
proof (intro map_cong refl)
  fix row v c assume "row \<in> set x" "v \<in> set row" "c \<in> set W"
  then have "length v = d" "length c = d"
    using x W by (auto simp: has_shape_def is_codebook_def list_all_iff)
  then show "dot v c = inner_product v c" by (simp add: dot_inner_product)
qed

lemma cdist_nth:
  assumes x: "has_shape b p d x" and W: "is_codebook n d W" and "i < b" "j < p" "k < n"
  shows "cdist x W ! i ! j ! k = euclidean_distance (x ! i ! j) (W ! k)"
  using assms has_shape_nth(1) [OF x \<open>i < b\<close>]
  by (simp add: cdist_scores [OF x W] has_shape_def is_codebook_def)

lemma matmul_T_nth:
  assumes x: "has_shape b p d x" and W: "is_codebook n d W" and "i < b" "j < p" "k < n"
  shows "matmul_T x W ! i ! j ! k = inner_product (x ! i ! j) (W ! k)"
  using assms has_shape_nth(1) [OF x \<open>i < b\<close>]
  by (simp add: matmul_T_scores [OF x W] has_shape_def is_codebook_def)

lemma euclidean_forward_computed:
  assumes x: "has_shape b p d x" and W: "is_codebook n d W" and n: "0 < n"
    and L: "has_shape b p n (cd x W)"
  shows "\<exists>out ids c. EuclideanSnapFunction_forward cd x W = Inr ((out, ids), c)
           \<and> has_shape b p d out \<and> length ids = b
           \<and> (\<forall>i<b. length (ids ! i) = p
                \<and> (\<forall>j<p. ids ! i ! j < n \<and> out ! i ! j = W ! (ids ! i ! j)
                     \<and> (\<forall>k<n. cd x W ! i ! j ! (ids ! i ! j) \<le> cd x W ! i ! j ! k)
                     \<and> (\<forall>k<ids ! i ! j. cd x W ! i ! j ! (ids ! i ! j) < cd x W ! i ! j ! k)))"
proof -
  let ?ids = "map (map argmin) (cd x W)"
  have Wne: "W \<noteq> []" using W n by (auto simp: is_codebook_def)
  have sel: "\<forall>xs. xs \<noteq> [] \<longrightarrow> argmin xs < length xs" by (simp add: argmin_less)
  note g = snap_generic [OF L W n sel]
  have fw: "EuclideanSnapFunction_forward cd x W
              = Inr ((embedding ?ids W, ?ids), \<lparr>saved_codebook = W, saved_ids = ?ids\<rparr>)"
    using dims_agree_shape [OF x W n] Wne by (simp add: EuclideanSnapFunction_forward_def Let_def)
  have best: "cd x W ! i ! j ! (?ids ! i ! j) \<le> cd x W ! i ! j ! k"
    if "i < b" "j < p" "k < n" for i j k
    using argmin_least [of k "cd x W ! i ! j"] has_shape_nth(2) [OF L that(1,2)] that(3)
      g(4) [OF that(1,2)] by simp
  have first: "cd x W ! i ! j ! (?ids ! i ! j) < cd x W ! i ! j ! k"
    if "i < b" "j < p" "k < ?ids ! i ! j" for i j k
    using argmin_first [of k "cd x W ! i ! j"] that(3) g(4) [OF that(1,2)] by simp
  from fw g(1,2,3,5,6) best first show ?thesis by blast
qed

lemma inner_product_forward_computed:
  assumes x: "has_shape b p d x" and W: "is_codebook n d W" and n: "0 < n"
    and L: "has_shape b p n (mm x W)"
  shows "\<exists>out ids c. InnerProductSnapFunction_forward mm x W = Inr ((out, ids), c)
           \<and> has_shape b p d out \<and> length ids = b
           \<and> (\<forall>i<b. length (ids ! i) = p
                \<and> (\<forall>j<p. ids ! i ! j < n \<and> out ! i ! j = W ! (ids ! i ! j)
                     \<and> (\<forall>k<n. mm x W ! i ! j ! k \<le> mm x W ! i ! j ! (ids ! i ! j))
                     \<and> (\<forall>k<ids ! i ! j. mm x W ! i ! j ! k < mm x W ! i ! j ! (ids ! i ! j))))"
proof -
  let ?ids = "map (map argmax) (mm x W)"
  have Wne: "W \<noteq> []" using W n by (auto simp: is_codebook_def)
  have sel: "\<forall>xs. xs \<noteq> [] \<longrightarrow> argmax xs < length xs" by (simp add: argmax_less)
  note g = snap_generic [OF L W n sel]
  have fw: "InnerProductSnapFunction_forward mm x W
              = Inr ((embedding ?ids W, ?ids), \<lparr>saved_codebook = W, saved_ids = ?ids\<rparr>)"
    using dims_agree_shape [OF x W n] Wne
    by (simp add: InnerProductSnapFunction_forward_def Let_def)
  have best: "mm x W ! i ! j ! k \<le> mm x W ! i ! j ! (?ids ! i ! j)"
    if "i < b" "j < p" "k < n" for i j k
    using argmax_greatest [of k "mm x W ! i ! j"] has_shape_nth(2) [OF L that(1,2)] that(3)
      g(4) [OF that(1,2)] by simp
  have first: "mm x W ! i ! j ! k < mm x W ! i ! j ! (?ids ! i ! j)"
    if "i < b" "j < p" "k < ?ids ! i ! j" for i j k
    using argmax_first [of k "mm x W ! i ! j"] that(3) g(4) [OF that(1,2)] by simp
  from fw g(1,2,3,5,6) best first show ?thesis by blast
qed
text \<open>
  C4. The backward pass returns the incoming gradient of the outputs, unchanged, as the
  gradient of the inputs, whatever the saved context (the codebook and the selection) and
  whatever the incoming gradients.
\<close>

theorem backward_is_straight_through:
  "fst (BaseSnapFunction_backward c grad_outputs grad_codebook_ids) = grad_outputs"
  by (simp add: BaseSnapFunction_backward_def Let_def)

text \<open>
  C5, amended. For an input of shape \<open>(b, p, d)\<close> and a codebook of shape \<open>(n, d)\<close> with at
  least one code, whatever scores of shape \<open>(b, p, n)\<close> the kernels \<open>torch.cdist\<close> and
  \<open>torch.matmul\<close> return, both snap functions return; the outputs have the input's shape,
  and at every position the returned id is below \<open>n\<close>, the output is the codebook row of
  that id, and the id is the first one whose computed score is minimal (Euclidean snap:
  the distance that \<open>cdist\<close> returned) or maximal (inner-product snap: the dot product that
  \<open>matmul\<close> returned). Where the computed scores are the exact ones, the selected row
  minimizes the Euclidean distance, or maximizes the dot product.
\<close>

theorem snap_forward_selects_by_computed_score:
  assumes x: "has_shape b p d x" and W: "is_codebook n d W" and n: "0 < n"
    and Lc: "has_shape b p n (cd x W)" and Lm: "has_shape b p n (mm x W)"
  shows "(\<exists>out ids c. EuclideanSnapFunction_forward cd x W = Inr ((out, ids), c)
            \<and> has_shape b p d out \<and> length ids = b
            \<and> (\<forall>i<b. length (ids ! i) = p
                 \<and> (\<forall>j<p. ids ! i ! j < n \<and> out ! i ! j = W ! (ids ! i ! j)
                      \<and> (\<forall>k<n. cd x W ! i ! j ! (ids ! i ! j) \<le> cd x W ! i ! j ! k)
                      \<and> (\<forall>k<ids ! i ! j. cd x W ! i ! j ! (ids ! i ! j) < cd x W ! i ! j ! k)
                      \<and> (cd x W = cdist x W \<longrightarrow>
                           (\<forall>k<n. euclidean_distance (x ! i ! j) (W ! (ids ! i ! j))
                                    \<le> euclidean_distance (x ! i ! j) (W ! k))))))
       \<and> (\<exists>out ids c. InnerProductSnapFunction_forward mm x W = Inr ((out, ids), c)
            \<and> has_shape b p d out \<and> length ids = b
            \<and> (\<forall>i<b. length (ids ! i) = p
                 \<and> (\<forall>j<p. ids ! i ! j < n \<and> out ! i ! j = W ! (ids ! i ! j)
                      \<and> (\<forall>k<n. mm x W ! i ! j ! k \<le> mm x W ! i ! j ! (ids ! i ! j))
                      \<and> (\<forall>k<ids ! i ! j. mm x W ! i ! j ! k < mm x W ! i ! j ! (ids ! i ! j))
                      \<and> (mm x W = matmul_T x W \<longrightarrow>
                           (\<forall>k<n. inner_product (x ! i ! j) (W ! k)
                                    \<le> inner_product (x ! i ! j) (W ! (ids ! i ! j)))))))"
proof (rule conjI)
  from euclidean_forward_computed [where cd = cd, OF x W n Lc] obtain out ids c where
    fw: "EuclideanSnapFunction_forward cd x W = Inr ((out, ids), c)"
    and sh: "has_shape b p d out" "length ids = b"
    and pos: "\<forall>i<b. length (ids ! i) = p
                \<and> (\<forall>j<p. ids ! i ! j < n \<and> out ! i ! j = W ! (ids ! i ! j)
                     \<and> (\<forall>k<n. cd x W ! i ! j ! (ids ! i ! j) \<le> cd x W ! i ! j ! k)
                     \<and> (\<forall>k<ids ! i ! j. cd x W ! i ! j ! (ids ! i ! j) < cd x W ! i ! j ! k))"
    by blast
  have exact: "euclidean_distance (x ! i ! j) (W ! (ids ! i ! j))
                 \<le> euclidean_distance (x ! i ! j) (W ! k)"
    if "cd x W = cdist x W" "i < b" "j < p" "k < n" for i j k
  proof -
    from pos that have lt: "ids ! i ! j < n"
      and le: "cd x W ! i ! j ! (ids ! i ! j) \<le> cd x W ! i ! j ! k" by auto
    from le that(1) cdist_nth [OF x W that(2,3) lt] cdist_nth [OF x W that(2,3,4)]
    show ?thesis by simp
  qed
  from fw sh pos exact
  show "\<exists>out ids c. EuclideanSnapFunction_forward cd x W = Inr ((out, ids), c)
            \<and> has_shape b p d out \<and> length ids = b
            \<and> (\<forall>i<b. length (ids ! i) = p
                 \<and> (\<forall>j<p. ids ! i ! j < n \<and> out ! i ! j = W ! (ids ! i ! j)
                      \<and> (\<forall>k<n. cd x W ! i ! j ! (ids ! i ! j) \<le> cd x W ! i ! j ! k)
                      \<and> (\<forall>k<ids ! i ! j. cd x W ! i ! j ! (ids ! i ! j) < cd x W ! i ! j ! k)
                      \<and> (cd x W = cdist x W \<longrightarrow>
                           (\<forall>k<n. euclidean_distance (x ! i ! j) (W ! (ids ! i ! j))
                                    \<le> euclidean_distance (x ! i ! j) (W ! k)))))"
    by (intro exI [of _ out] exI [of _ ids] exI [of _ c]) simp
next
  from inner_product_forward_computed [where mm = mm, OF x W n Lm] obtain out ids c where
    fw: "InnerProductSnapFunction_forward mm x W = Inr ((out, ids), c)"
    and sh: "has_shape b p d out" "length ids = b"
    and pos: "\<forall>i<b. length (ids ! i) = p
                \<and> (\<forall>j<p. ids ! i ! j < n \<and> out ! i ! j = W ! (ids ! i ! j)
                     \<and> (\<forall>k<n. mm x W ! i ! j ! k \<le> mm x W ! i ! j ! (ids ! i ! j))
                     \<and> (\<forall>k<ids ! i ! j. mm x W ! i ! j ! k < mm x W ! i ! j ! (ids ! i ! j)))"
    by blast
  have exact: "inner_product (x ! i ! j) (W ! k)
                 \<le> inner_product (x ! i ! j) (W ! (ids ! i ! j))"
    if "mm x W = matmul_T x W" "i < b" "j < p" "k < n" for i j k
  proof -
    from pos that have lt: "ids ! i ! j < n"
      and le: "mm x W ! i ! j ! k \<le> mm x W ! i ! j ! (ids ! i ! j)" by auto
    from le that(1) matmul_T_nth [OF x W that(2,3) lt] matmul_T_nth [OF x W that(2,3,4)]
    show ?thesis by simp
  qed
  from fw sh pos exact
  show "\<exists>out ids c. InnerProductSnapFunction_forward mm x W = Inr ((out, ids), c)
            \<and> has_shape b p d out \<and> length ids = b
            \<and> (\<forall>i<b. length (ids ! i) = p
                 \<and> (\<forall>j<p. ids ! i ! j < n \<and> out ! i ! j = W ! (ids ! i ! j)
                      \<and> (\<forall>k<n. mm x W ! i ! j ! k \<le> mm x W ! i ! j ! (ids ! i ! j))
                      \<and> (\<forall>k<ids ! i ! j. mm x W ! i ! j ! k < mm x W ! i ! j ! (ids ! i ! j))
                      \<and> (mm x W = matmul_T x W \<longrightarrow>
                           (\<forall>k<n. inner_product (x ! i ! j) (W ! k)
                                    \<le> inner_product (x ! i ! j) (W ! (ids ! i ! j))))))"
    by (intro exI [of _ out] exI [of _ ids] exI [of _ c]) simp
qed

lemma euclidean_snap_example:
  "map_sum id fst (EuclideanSnapFunction_forward cdist [[[2, 0], [4, 0]]] [[1, 0], [5, 0]])
     = Inr ([[[1, 0], [5, 0]]], [[0, 1]])"
  by (simp add: EuclideanSnapFunction_forward_def dims_agree_def ncols_def cdist_def
        embedding_def Let_def)

lemma inner_product_snap_example:
  "map_sum id fst (InnerProductSnapFunction_forward matmul_T [[[2, 0], [4, 0]]] [[1, 0], [5, 0]])
     = Inr ([[[5, 0], [5, 0]]], [[1, 1]])"
  by (simp add: InnerProductSnapFunction_forward_def dims_agree_def ncols_def matmul_T_def dot_def
        embedding_def Let_def)

theorem snap_forward_selects_by_computed_score_witness:
  "has_shape 1 2 2 [[[2, 0], [4, 0]]] \<and> is_codebook 2 2 [[1, 0], [5, 0]]
   \<and> has_shape 1 2 2 (cdist [[[2, 0], [4, 0]]] [[1, 0], [5, 0]])
   \<and> has_shape 1 2 2 (matmul_T [[[2, 0], [4, 0]]] [[1, 0], [5, 0]])
   \<and> (\<exists>out ids c. EuclideanSnapFunction_forward cdist [[[2, 0], [4, 0]]] [[1, 0], [5, 0]]
                      = Inr ((out, ids), c)
          \<and> has_shape 1 2 2 out \<and> length ids = 1)
   \<and> (\<exists>out ids c. InnerProductSnapFunction_forward matmul_T [[[2, 0], [4, 0]]] [[1, 0], [5, 0]]
                      = Inr ((out, ids), c)
          \<and> has_shape 1 2 2 out \<and> length ids = 1)"
proof -
  have h1: "has_shape 1 2 2 [[[2, 0], [4, 0]]]" by (simp add: has_shape_def)
  have h2: "is_codebook 2 2 [[1, 0], [5, 0]]" by (simp add: is_codebook_def)
  have h3: "(0::nat) < 2" by simp
  have h4: "has_shape 1 2 2 (cdist [[[2, 0], [4, 0]]] [[1, 0], [5, 0]])"
    by (simp add: has_shape_def cdist_def)
  have h5: "has_shape 1 2 2 (matmul_T [[[2, 0], [4, 0]]] [[1, 0], [5, 0]])"
    by (simp add: has_shape_def matmul_T_def)
  have weaken: "(\<exists>out ids c. P out ids c \<and> Q out \<and> L ids \<and> R out ids)
                  \<Longrightarrow> (\<exists>out ids c. P out ids c \<and> Q out \<and> L ids)" for P Q L R
    by blast
  note t = snap_forward_selects_by_computed_score [where cd = cdist and mm = matmul_T,
      OF h1 h2 h3 h4 h5]
  have w1: "\<exists>out ids c. EuclideanSnapFunction_forward cdist [[[2, 0], [4, 0]]] [[1, 0], [5, 0]]
                      = Inr ((out, ids), c) \<and> has_shape 1 2 2 out \<and> length ids = 1"
    by (rule weaken [OF t [THEN conjunct1]])
  have w2: "\<exists>out ids c. InnerProductSnapFunction_forward matmul_T [[[2, 0], [4, 0]]] [[1, 0], [5, 0]]
                      = Inr ((out, ids), c) \<and> has_shape 1 2 2 out \<and> length ids = 1"
    by (rule weaken [OF t [THEN conjunct2]])
  show ?thesis by (rule conjI [OF h1 conjI [OF h2 conjI [OF h4 conjI [OF h5 conjI [OF w1 w2]]]]])
qed

lemma floor_log2:
  fixes x :: real
  assumes "2 ^ k \<le> x" and "x < 2 ^ Suc k"
  shows "\<lfloor>log 2 x\<rfloor> = int k"
proof (rule floor_unique)
  have pos: "0 < x" using assms(1) by (meson less_le_trans zero_less_numeral zero_less_power)
  have "2 powr (real k) \<le> x" using assms(1) by (simp add: powr_realpow)
  then show "of_int (int k) \<le> log 2 x" using pos by (simp add: le_log_iff)
  have "(2::real) powr (real (Suc k)) = 2 ^ Suc k" by (rule powr_realpow) simp
  with assms(2) have "x < 2 powr (real (Suc k))" by simp
  then have "log 2 x < real (Suc k)" using pos by (simp add: log_less_iff)
  then show "log 2 x < of_int (int k) + 1" by simp
qed

lemma float32_zero: "float32 0 = 0"
  by (simp add: float32_def)

lemma float32_one: "float32 1 = 1"
  by (simp add: float32_def round_half_even_def Let_def powr_minus field_simps)

lemma float32_16777216: "float32 16777216 = 16777216"
proof -
  have "\<lfloor>log 2 (16777216 :: real)\<rfloor> = int 24" by (rule floor_log2) simp_all
  then show ?thesis by (simp add: float32_def round_half_even_def Let_def)
qed

lemma float32_16777217: "float32 16777217 = 16777216"
proof -
  have "\<lfloor>log 2 (16777217 :: real)\<rfloor> = int 24" by (rule floor_log2) simp_all
  then show ?thesis by (simp add: float32_def round_half_even_def Let_def)
qed

lemma matmul_float32_example:
  "matmul_float32 [[[1, 1]]] [[16777216, 0], [16777216, 1]] = [[[16777216, 16777216]]]"
  by (simp add: matmul_float32_def dot_float32_def float32_zero float32_one float32_16777216
        float32_16777217)

text \<open>
  C5, as stated, fails in single precision: for the input vector \<open>[1, 1]\<close> and the rows
  \<open>[2^24, 0]\<close> and \<open>[2^24, 1]\<close> the dot products are \<open>2^24\<close> and \<open>2^24 + 1\<close>, the second
  rounds to \<open>2^24\<close>, the computed scores tie, and the inner-product snap function returns
  row 0, whose dot product is not the maximal one.
\<close>

theorem inner_product_snap_misses_maximal_row:
  "map_sum id fst
     (InnerProductSnapFunction_forward matmul_float32 [[[1, 1]]] [[16777216, 0], [16777216, 1]])
     = Inr ([[[16777216, 0]]], [[0]])
   \<and> inner_product [1, 1] [16777216, 0] < inner_product [1, 1] [16777216, 1]"
  by (simp add: InnerProductSnapFunction_forward_def matmul_float32_example dims_agree_def
        ncols_def embedding_def inner_product_def Let_def)

subsection \<open>The usage counter\<close>

lemma count_of_counter_update:
  "count_of (counter_update m ks) i = count_of m i + int (count_list ks i)"
proof -
  have "count_of (fold (\<lambda>k m. m(k \<mapsto> count_of m k + 1)) ks m) i
          = count_of m i + int (count_list ks i)"
    by (induction ks arbitrary: m) (auto simp: count_of_def)
  then show ?thesis by (simp add: counter_update_def)
qed

lemma length_fold_update:
  "length (fold (\<lambda>(i, r) M. M[i := r]) ps W) = length W"
  by (induction ps arbitrary: W) (auto split: prod.splits)

lemma index_put_length: "index_put W idx rows = Inr W' \<Longrightarrow> length W' = length W"
  by (auto simp: index_put_def length_fold_update split: if_splits)

lemma list_of_set_props:
  "length (list_of_set slot xs) = length xs" "set (list_of_set slot xs) = set xs"
  "distinct (list_of_set slot xs) = distinct xs"
  by (simp_all add: list_of_set_def)

lemma list_of_set_Nil: "list_of_set slot xs = [] \<longleftrightarrow> xs = []"
  using list_of_set_props(1) [of slot xs] by (metis length_0_conv)

lemma expire_codes_cases:
  "expire_codes l t slot g =
     (if underused_codes l t = [] then Inr l
      else Inr (l\<lparr>weight := fold (\<lambda>(i, r) M. M[i := r])
                  (zip (list_of_set slot (underused_codes l t))
                       (einsum_uc_cd (normalize_rows
                           (torch_rand g (length (underused_codes l t)) (length (weight l))))
                          (weight l)))
                  (weight l)\<rparr>))"
  by (simp add: expire_codes_def index_put_def Let_def list_of_set_Nil)

lemma expire_codes_frame:
  "\<exists>l'. expire_codes l t slot g = Inr l' \<and> counts l' = counts l \<and> soft_snap l' = soft_snap l
        \<and> layer_snap_fn l' = layer_snap_fn l \<and> length (weight l') = length (weight l)"
  by (simp add: expire_codes_cases length_fold_update)

lemma forward_hard:
  assumes "\<not> soft_snap l" and "CodebookLayer_forward K l a = Inr (y, l')"
  shows "l' = l\<lparr>counts := counter_update (counts l) (selected_codes K l a)\<rparr>"
  using assms
  by (auto simp: CodebookLayer_forward_def selected_codes_def
           split: activation.splits sum.splits prod.splits)

lemma forward_soft:
  assumes "soft_snap l" and "CodebookLayer_forward K l a = Inr (y, l')"
  shows "l' = l"
  using assms
  by (auto simp: CodebookLayer_forward_def Let_def split: activation.splits if_splits)

lemma forward_counts:
  assumes "CodebookLayer_forward K l a = Inr (y, l')"
  shows "count_of (counts l') i = count_of (counts l) i + int (count_list (selected_codes K l a) i)"
proof (cases "soft_snap l")
  case True
  with forward_soft [OF True assms] show ?thesis by (simp add: selected_codes_def)
next
  case False
  from forward_hard [OF False assms] show ?thesis by (simp add: count_of_counter_update)
qed

text \<open>
  C6. For every run of calls on a layer (forward calls in either mode and \<open>expire_codes\<close>
  calls, in any order) that raises no exception, the usage counter of every code id
  afterwards is its value before the run plus the number of positions at which the
  hard-mode forward calls of the run selected that id: the counts accumulate over the
  calls, and neither a soft-mode forward call nor \<open>expire_codes\<close> changes or resets them.
\<close>

theorem usage_counter_accumulates:
  assumes "run_calls K l cs = Inr (l', sel)"
  shows "count_of (counts l') i = count_of (counts l) i + int (count_list sel i)"
  using assms
proof (induction K l cs arbitrary: l' sel rule: run_calls.induct)
  case (1 K l)
  then show ?case by simp
next
  case (2 K l a cs)
  from "2.prems" obtain y l1 sel1 where
    f: "CodebookLayer_forward K l a = Inr (y, l1)" and
    r: "run_calls K l1 cs = Inr (l', sel1)" and
    s: "sel = selected_codes K l a @ sel1"
    by (auto split: sum.splits prod.splits)
  from "2.IH" [OF f refl r]
  have "count_of (counts l') i = count_of (counts l1) i + int (count_list sel1 i)" .
  with forward_counts [OF f, of i] s show ?case by simp
next
  case (3 K l t slot g cs)
  from "3.prems" obtain l1 where
    e: "expire_codes l t slot g = Inr l1" and r: "run_calls K l1 cs = Inr (l', sel)"
    by (auto split: sum.splits)
  from expire_codes_frame [of l t slot g] e have "counts l1 = counts l" by auto
  with "3.IH" [OF e r] show ?case by simp
qed

text \<open>
  C10. \<open>expire_codes\<close> returns without an exception and leaves the usage counter as it was,
  for every layer, threshold and random draws; the underused codes of the layer after the
  call, for the same threshold, are those before it, so a second call overwrites the same
  codes again.
\<close>

theorem expire_codes_keeps_counter:
  "map_sum id counts (expire_codes l t slot g) = Inr (counts l)
   \<and> map_sum id (\<lambda>l'. underused_codes l' t) (expire_codes l t slot g)
       = Inr (underused_codes l t)"
proof -
  from expire_codes_frame [of l t slot g] obtain l' where
    e: "expire_codes l t slot g = Inr l'" and c: "counts l' = counts l"
    and n: "length (weight l') = length (weight l)" by blast
  have "underused_codes l' t = underused_codes l t"
    by (simp add: underused_codes_def c n)
  with e c show ?thesis by simp
qed

subsection \<open>Expiration of underused codes\<close>





lemma torch_rand_row:
  "u < m \<Longrightarrow> torch_rand g m n ! u = map (\<lambda>j. g (u * n + j)) [0..<n]"
  by (simp add: torch_rand_def)






subsection \<open>Soft mode\<close>





subsection \<open>Worked examples for the codebook layer\<close>






lemma ex_run:
  "\<exists>l'. run_calls exact_kernels example_layer
           [Forward (Rank3 example_input), ExpireCodes 1 example_slot example_draws,
            Forward (Rank3 example_input)]
         = Inr (l', [0, 1, 0, 1])"
  by (simp add: example_layer_def example_input_def CodebookLayer_forward_def snap_apply_def
        exact_kernels_def EuclideanSnapFunction_forward_def dims_agree_def ncols_def cdist_def
        embedding_def Let_def selected_codes_def counter_update_def count_of_def
        expire_codes_cases underused_codes_def)

theorem usage_counter_accumulates_witness:
  "\<exists>l'. run_calls exact_kernels example_layer
           [Forward (Rank3 example_input), ExpireCodes 1 example_slot example_draws,
            Forward (Rank3 example_input)]
         = Inr (l', [0, 1, 0, 1])
       \<and> count_of (counts l') 0 = 2 \<and> count_of (counts l') 1 = 5 \<and> count_of (counts l') 2 = 0"
proof -
  from ex_run obtain l' where
    h: "run_calls exact_kernels example_layer
           [Forward (Rank3 example_input), ExpireCodes 1 example_slot example_draws,
            Forward (Rank3 example_input)]
         = Inr (l', [0, 1, 0, 1])" ..
  have "count_of (counts l') 0 = 2" "count_of (counts l') 1 = 5" "count_of (counts l') 2 = 0"
    using usage_counter_accumulates [OF h, of 0] usage_counter_accumulates [OF h, of 1]
      usage_counter_accumulates [OF h, of 2]
    by (simp_all add: example_layer_def count_of_def)
  with h show ?thesis by blast
qed

lemma ex_soft:
  "CodebookLayer_forward exact_kernels (example_layer\<lparr>soft_snap := True\<rparr>) (Rank3 [[[0, 0]]])
     = Inr ([[[3, 0]]], example_layer\<lparr>soft_snap := True\<rparr>)"
  by (simp add: example_layer_def CodebookLayer_forward_def dims_agree_def ncols_def matmul_T_def
        dot_def softmax_def weighted_rows_def sum_rows_def Let_def)


subsection \<open>The layer wrapper\<close>

lemma forward_disabled:
  "forward K (TransformerLayerWrapper layer cl False) args =
     map_sum id (\<lambda>(outs, layer'). (outs, TransformerLayerWrapper layer' cl False))
       (forward K layer args)"
  by (simp split: sum.splits prod.splits)

lemma forward_enabled:
  assumes "forward K layer args = Inr (louts, layer')"
    and "forward K (TransformerLayerWrapper layer cl True) args = Inr (outs, w')"
  shows "\<exists>a y cl' rest. louts = Act a # rest \<and> CodebookLayer_forward K cl a = Inr (y, cl')
           \<and> outs = Act (Rank3 y) # rest \<and> w' = TransformerLayerWrapper layer' cl' True"
  using assms
  by (auto split: list.splits tuple_item.splits sum.splits prod.splits)

lemma add_codebooks_nth:
  "i < length layers \<Longrightarrow>
   add_codebooks cm init layers ! i =
     (if int i \<in> set (layers_to_snap cm)
      then TransformerLayerWrapper (layers ! i) (CodebookLayer_init (init i) (snap_fn cm)) True
      else layers ! i)"
  by (simp add: add_codebooks_def nth_enumerate_eq TransformerLayerWrapper_init_def)

lemma length_add_codebooks: "length (add_codebooks cm init layers) = length layers"
  by (simp add: add_codebooks_def)

lemma disable_codebooks_nth:
  "i < length layers \<Longrightarrow>
   disable_codebooks cm layers ! i =
     (if int i \<in> set (layers_to_snap cm) then set_snap False (layers ! i) else layers ! i)"
  by (simp add: disable_codebooks_def nth_enumerate_eq)

text \<open>
  C8. With \<open>snap\<close> false the wrapper returns what the wrapped layer returns (or raises what
  it raises) and leaves its codebook layer as it was. With \<open>snap\<close> true, when both the
  wrapped layer and the wrapper return, the tuples have the same length, every element
  after element 0 is the wrapped layer's, and element 0 is the codebook layer's output on
  the wrapped layer's element 0. After \<open>add_codebooks\<close> and \<open>disable_codebooks\<close>, every
  layer of the composed model returns, on every argument, what the layer of the backbone
  at that index returns.
\<close>

theorem wrapper_forward_frame:
  "(\<not> sn \<longrightarrow>
      map_sum id fst (forward K (TransformerLayerWrapper layer cl sn) args)
        = map_sum id fst (forward K layer args)
      \<and> map_sum id (codebook_layer \<circ> snd) (forward K (TransformerLayerWrapper layer cl sn) args)
        = map_sum id (\<lambda>_. cl) (forward K layer args))
   \<and> (sn \<and> forward K layer args = Inr (louts, layer')
         \<and> forward K (TransformerLayerWrapper layer cl sn) args = Inr (outs, w') \<longrightarrow>
       length outs = length louts
       \<and> (\<forall>j. 0 < j \<and> j < length louts \<longrightarrow> outs ! j = louts ! j)
       \<and> (\<exists>a y cl'. louts ! 0 = Act a \<and> CodebookLayer_forward K cl a = Inr (y, cl')
             \<and> outs ! 0 = Act (Rank3 y)))
   \<and> (i < length layers \<longrightarrow>
       map_sum id fst (forward K (disable_codebooks cm (add_codebooks cm init layers) ! i) args)
         = map_sum id fst (forward K (layers ! i) args))"
proof (intro conjI impI)
  assume "\<not> sn"
  then have eq: "forward K (TransformerLayerWrapper layer cl sn) args =
     map_sum id (\<lambda>(outs, layer'). (outs, TransformerLayerWrapper layer' cl False))
       (forward K layer args)"
    using forward_disabled [of K layer cl args] by simp
  show "map_sum id fst (forward K (TransformerLayerWrapper layer cl sn) args)
          = map_sum id fst (forward K layer args)"
    unfolding eq by (cases "forward K layer args") auto
  show "map_sum id (codebook_layer \<circ> snd) (forward K (TransformerLayerWrapper layer cl sn) args)
          = map_sum id (\<lambda>_. cl) (forward K layer args)"
    unfolding eq by (cases "forward K layer args") auto
next
  assume a: "sn \<and> forward K layer args = Inr (louts, layer')
         \<and> forward K (TransformerLayerWrapper layer cl sn) args = Inr (outs, w')"
  then have sn: "sn = True" by simp
  from a sn forward_enabled [of K layer args louts layer' cl outs w']
  obtain a0 y cl' rest where r: "louts = Act a0 # rest" "CodebookLayer_forward K cl a0 = Inr (y, cl')"
    "outs = Act (Rank3 y) # rest" by auto
  show "length outs = length louts" using r by simp
  show "\<forall>j. 0 < j \<and> j < length louts \<longrightarrow> outs ! j = louts ! j"
    using r by (auto simp: nth_Cons')
  show "\<exists>a y cl'. louts ! 0 = Act a \<and> CodebookLayer_forward K cl a = Inr (y, cl')
          \<and> outs ! 0 = Act (Rank3 y)"
    using r by auto
next
  assume i: "i < length layers"
  show "map_sum id fst (forward K (disable_codebooks cm (add_codebooks cm init layers) ! i) args)
          = map_sum id fst (forward K (layers ! i) args)"
  proof (cases "int i \<in> set (layers_to_snap cm)")
    case True
    have "disable_codebooks cm (add_codebooks cm init layers) ! i
            = TransformerLayerWrapper (layers ! i) (CodebookLayer_init (init i) (snap_fn cm)) False"
      using i True by (simp add: disable_codebooks_nth length_add_codebooks add_codebooks_nth)
    then show ?thesis
      by (cases "forward K (layers ! i) args") (auto simp: forward_disabled simp del: forward.simps)
  next
    case False
    then show ?thesis
      using i by (simp add: disable_codebooks_nth length_add_codebooks add_codebooks_nth)
  qed
qed

lemma ex_wrapper_on:
  "map_sum id fst (forward exact_kernels (TransformerLayerWrapper example_backbone_layer example_layer True)
                     example_input)
     = Inr [Act (Rank3 [[[1, 0], [5, 0]]]), Aux 7]"
  by (simp add: example_backbone_layer_def example_layer_def example_input_def
        CodebookLayer_forward_def snap_apply_def exact_kernels_def
        EuclideanSnapFunction_forward_def dims_agree_def
        ncols_def cdist_def embedding_def Let_def)

theorem wrapper_forward_frame_witness:
  "map_sum id fst (forward exact_kernels (TransformerLayerWrapper example_backbone_layer example_layer False)
                     example_input)
     = Inr [Act (Rank3 example_input), Aux 7]
   \<and> (\<exists>outs w'. forward exact_kernels (TransformerLayerWrapper example_backbone_layer example_layer True)
                     example_input = Inr (outs, w')
         \<and> length outs = 2 \<and> outs ! 1 = Aux 7)
   \<and> map_sum id fst
        (forward exact_kernels (disable_codebooks example_model
                    (add_codebooks example_model (\<lambda>_. [[1, 0], [5, 0]])
                       [example_backbone_layer, example_backbone_layer]) ! 1) example_input)
     = Inr [Act (Rank3 example_input), Aux 7]"
proof -
  have inner: "forward exact_kernels example_backbone_layer example_input
                 = Inr ([Act (Rank3 example_input), Aux 7], example_backbone_layer)"
    by (simp add: example_backbone_layer_def)
  have p1: "map_sum id fst (forward exact_kernels (TransformerLayerWrapper example_backbone_layer example_layer False)
                     example_input) = Inr [Act (Rank3 example_input), Aux 7]"
    using wrapper_forward_frame [where K = exact_kernels and sn = False and layer = example_backbone_layer
        and cl = example_layer and args = example_input, THEN conjunct1]
      inner by simp
  obtain outs w' where
    on: "forward exact_kernels (TransformerLayerWrapper example_backbone_layer example_layer True) example_input
           = Inr (outs, w')"
    using ex_wrapper_on
    by (cases "forward exact_kernels (TransformerLayerWrapper example_backbone_layer example_layer True)
                 example_input") auto
  have p2: "length outs = 2 \<and> outs ! 1 = Aux 7"
    using wrapper_forward_frame [where K = exact_kernels and sn = True and layer = example_backbone_layer
        and cl = example_layer and args = example_input and outs = outs and w' = w'
        and louts = "[Act (Rank3 example_input), Aux 7]" and layer' = example_backbone_layer,
        THEN conjunct2, THEN conjunct1]
      inner on by auto
  have p3: "map_sum id fst
        (forward exact_kernels (disable_codebooks example_model
                    (add_codebooks example_model (\<lambda>_. [[1, 0], [5, 0]])
                       [example_backbone_layer, example_backbone_layer]) ! 1) example_input)
     = Inr [Act (Rank3 example_input), Aux 7]"
    using wrapper_forward_frame [where K = exact_kernels and i = 1 and cm = example_model
        and layers = "[example_backbone_layer, example_backbone_layer]"
        and init = "\<lambda>_. [[1, 0], [5, 0]]" and args = example_input,
        THEN conjunct2, THEN conjunct2]
      inner by simp
  from p1 on p2 p3 show ?thesis by blast
qed

end
